theory Spec2Isabelle
  imports Main
begin

section \<open>Python values used by the ingestion code\<close>

text \<open>
  The exceptions the modelled code can raise. Every constructor stands for an instance of a
  subclass of Python's \<open>Exception\<close>, which is what the handlers of the source
  (\<open>except Exception as e\<close>) catch. \<open>Raised\<close> is any exception coming out of an external
  collaborator (an HTTP error of the task service, a failure of the job loader, ...).
\<close>

datatype exn =
    KeyError string
  | IndexError string
  | UnboundLocalError string
  | Raised string

subsection \<open>Strings\<close>

text \<open>
  \<open>str.split(sep, maxsplit)\<close> for a one-character separator: the string is cut at the
  first \<open>maxsplit\<close> occurrences of the separator, from the left; the rest is the last piece.
\<close>

fun split_max :: "char \<Rightarrow> nat \<Rightarrow> string \<Rightarrow> string list" where
  "split_max sep n [] = [[]]"
| "split_max sep 0 (c # cs) = [c # cs]"
| "split_max sep (Suc n) (c # cs) =
     (if c = sep then [] # split_max sep n cs
      else (case split_max sep (Suc n) cs of
              [] \<Rightarrow> [[c]]
            | w # ws \<Rightarrow> (c # w) # ws))"

text \<open>\<open>str.split(sep)\<close> without a limit: a string has at most as many separators as characters.\<close>

definition split :: "char \<Rightarrow> string \<Rightarrow> string list" where
  "split sep s = split_max sep (length s) s"

text \<open>Indexing a list with a non-negative index; Python raises \<open>IndexError\<close> out of range.\<close>

definition index :: "'a list \<Rightarrow> nat \<Rightarrow> exn + 'a" where
  "index xs i = (if i < length xs then Inr (xs ! i) else Inl (IndexError ''list index out of range''))"

section \<open>etl/common.py\<close>

text \<open>
  \<^verbatim>\<open>
  def get_guid_root(guid):
      if "_" in str(guid):
          return str(guid).split("_", 1)[0]
      return guid
  \<close>
  for a \<open>guid\<close> that is a string. The split never yields an empty list
  (\<open>split_max_not_Nil\<close> below), so element 0 exists.
\<close>

definition get_guid_root :: "string \<Rightarrow> string" where
  "get_guid_root guid =
     (if CHR ''_'' \<in> set guid then hd (split_max (CHR ''_'') 1 guid) else guid)"

section \<open>etl/management/commands/ingest.py: data\<close>

text \<open>
  A run and the status of a task, as the task service reports them
  (\<open>run["runId"]\<close>, \<open>run["state"]\<close>, \<open>task["status"]["taskId"]\<close>,
  \<open>task["status"]["runs"]\<close>), and a task: its status and its definition
  (\<open>task["task"]\<close>, which the code hands on unread).
\<close>

record run =
  runId :: nat
  state :: string

record status =
  taskId :: string
  runs :: "run list"

record tc_task =
  status :: status
  task :: string

text \<open>The message \<open>handleTask\<close> builds for the normalization collaborator.\<close>

record payload =
  p_status :: status
  p_runId :: nat

record message =
  exchange :: string
  payload :: payload
  root_url :: string

text \<open>
  A normalized job, as the collaborator returns it. The code reads \<open>pulse_job["taskId"]\<close>
  only; the rest goes to the job loader as it is.
\<close>

record pulse_job =
  job_taskId :: string
  job_runId :: nat
  job_body :: string

text \<open>One page of \<open>listTaskGroup\<close>: \<open>response["tasks"]\<close> and \<open>response.get("continuationToken")\<close>.\<close>

record listing =
  tasks :: "tc_task list"
  continuationToken :: "string option"

subsection \<open>Data of the push path\<close>

text \<open>
  A row of the \<open>Repository\<close> table (the fields the code reads) and the dict \<open>repo_meta\<close>
  makes of it.
\<close>

record repository =
  repo_name :: string
  repo_url :: string
  repo_branch :: string
  repo_tc_root_url :: string

record repo_info =
  m_url :: string
  m_branch :: string
  m_owner :: string
  m_repo :: string
  m_tc_root_url :: string

text \<open>
  What the code reads of GitHub's answers: a parent reference (\<open>parent["sha"]\<close>,
  \<open>parent["url"]\<close>), a commit fetched by its URL (\<open>_commit["parents"]\<close>), a commit of a
  comparison (\<open>_commit["sha"]\<close> and the message, author and committer under
  \<open>_commit["commit"]\<close>), and the comparison (\<open>compareResponse["commits"]\<close>,
  \<open>compareResponse.get("merge_base_commit")\<close> with its \<open>parents\<close>).
\<close>

record parent_ref =
  parent_sha :: string
  parent_url :: string

record fetched_commit =
  parents :: "parent_ref list"

record compared_commit =
  c_sha :: string
  c_message :: string
  c_author :: string
  c_committer :: string

record merge_base =
  mb_parents :: "parent_ref list"

record comparison =
  commits :: "compared_commit list"
  merge_base_commit :: "merge_base option"

text \<open>The commits and the push event the code builds.\<close>

record push_commit =
  pc_message :: string
  pc_author :: string
  pc_committer :: string
  pc_id :: string

record push_details =
  event_head_repo_url :: string
  event_base_repo_branch :: string
  event_base_sha :: string
  event_head_sha :: string

record push_payload =
  organization :: string
  details :: push_details
  body_commits :: "push_commit list"
  repository :: string

record pulse =
  pulse_exchange :: string
  routingKey :: string
  pulse_payload :: push_payload

text \<open>A commit of GitHub's commit list, of which the code reads \<open>commit["sha"]\<close>.\<close>

record listed_commit =
  commit_sha :: string

subsection \<open>Effects\<close>

text \<open>
  What a call does to the world outside, in program order: calls of the external
  collaborators (the normalization handler, the job and push loaders, the task service, GitHub,
  the \<open>Repository\<close> table), log records, and the connection slot of
  \<open>treeherder.etl.db_semaphore\<close>.
  A computation is its outcome (\<open>Inl\<close> an exception that escapes, \<open>Inr\<close> the value returned)
  together with the effects it had until then.

  A coroutine object is represented by what awaiting it does. Python runs none of a coroutine
  before it is awaited, so its effects appear in a trace exactly where the model puts them: at
  the \<open>await\<close>.
\<close>

datatype arg = Str string | Num nat

datatype event =
    HandleMessage message string
  | ProcessJob pulse_job string
  | ListTaskGroup string string "string option"
  | AcquireConnection
  | ReleaseConnection
  | FetchJson string
  | RepositoryFilter string
  | PushLoaderProcess push_payload string string
  | LogException exn
  | LogInfo string "arg list"

type_synonym 'a io = "(exn + 'a) \<times> event list"

text \<open>
  The collaborators that are not part of this code, as the functions they compute:
  \<open>handleMessage(message, task["task"])\<close> of \<open>taskcluster_pulse.handler\<close>,
  \<open>JobLoader().process_job(pulse_job, root_url)\<close>, and the task service's
  \<open>asyncQueue.listTaskGroup(taskGroupId, query=query)\<close> for the queue at a root URL, whose
  query is \<open>{}\<close> (\<open>None\<close>) or \<open>{"continuationToken": t}\<close> (\<open>Some t\<close>).
\<close>

record env =
  handleMessage :: "message \<Rightarrow> string \<Rightarrow> exn + pulse_job list"
  process_job :: "pulse_job \<Rightarrow> string \<Rightarrow> exn + unit"
  listTaskGroup :: "string \<Rightarrow> string \<Rightarrow> string option \<Rightarrow> exn + listing"

section \<open>etl/management/commands/ingest.py: the task path\<close>

text \<open>
  \<^verbatim>\<open>
  stateToExchange = {}
  for key, value in EXCHANGE_EVENT_MAP.items():
      stateToExchange[value] = key
  \<close>
  \<open>EXCHANGE_EVENT_MAP\<close> is imported from the handler module; it is a parameter here: the items
  of the dict in iteration order (exchange name, state). The result is the outcome of the
  module-level loop: the dict it leaves, or the exception that would end the import.
\<close>

fun stateToExchange_loop ::
  "(string \<rightharpoonup> string) \<Rightarrow> (string \<times> string) list \<Rightarrow> exn + (string \<rightharpoonup> string)" where
  "stateToExchange_loop d [] = Inr d"
| "stateToExchange_loop d ((key, val) # rest) = stateToExchange_loop (d(val \<mapsto> key)) rest"

definition stateToExchange :: "(string \<times> string) list \<Rightarrow> exn + (string \<rightharpoonup> string)" where
  "stateToExchange EXCHANGE_EVENT_MAP = stateToExchange_loop Map.empty EXCHANGE_EVENT_MAP"

text \<open>
  \<^verbatim>\<open>
  async def await_futures(fs):
      for fut in fs:
          try:
              await fut
          except Exception as e:
              logger.exception(e)
  \<close>
\<close>

fun await_futures :: "unit io list \<Rightarrow> unit io" where
  "await_futures [] = (Inr (), [])"
| "await_futures (fut # fs) =
     (case fut of
        (Inl e, evs) \<Rightarrow>
          (case await_futures fs of (r, evs') \<Rightarrow> (r, evs @ [LogException e] @ evs'))
      | (Inr _, evs) \<Rightarrow>
          (case await_futures fs of (r, evs') \<Rightarrow> (r, evs @ evs')))"

text \<open>
  \<open>routine_to_future(func, *args)\<close> runs \<open>func(*args)\<close> in the thread pool (through
  \<open>asyncio.run\<close> when \<open>func\<close> is a coroutine function) and awaits it: the result of the
  awaiting is that of the call, an exception of the call included.
\<close>

definition routine_to_future :: "('a \<Rightarrow> unit io) \<Rightarrow> 'a \<Rightarrow> unit io" where
  "routine_to_future func args = func args"

text \<open>
  Modelled from the spec: \<open>acquire_connection\<close> and \<open>release_connection\<close> of
  \<open>treeherder.etl.db_semaphore\<close>, which is not among the sources. They take and give back
  one slot of the shared, limited database-connection resource; here each is the effect of
  doing so. Waiting for a free slot is not modelled.
\<close>

definition acquire_connection :: "unit io" where
  "acquire_connection = (Inr (), [AcquireConnection])"

definition release_connection :: "unit io" where
  "release_connection = (Inr (), [ReleaseConnection])"

text \<open>
  \<^verbatim>\<open>
  def process_job_with_threads(pulse_job, root_url):
      acquire_connection()
      logger.info("Loading into DB:\t%s", pulse_job["taskId"])
      JobLoader().process_job(pulse_job, root_url)
      release_connection()
  \<close>
  Four statements in a row, with no handler around them: an exception of one of them ends
  the function there.
\<close>

definition process_job_with_threads :: "env \<Rightarrow> pulse_job \<times> string \<Rightarrow> unit io" where
  "process_job_with_threads env args =
     (case args of (job, url) \<Rightarrow>
        (case acquire_connection of
           (Inl e, evs) \<Rightarrow> (Inl e, evs)
         | (Inr _, evs) \<Rightarrow>
             (case process_job env job url of
                Inl e \<Rightarrow>
                  (Inl e,
                   evs @ [LogInfo (''Loading into DB:'' @ [CHR 0x09] @ ''%s'') [Str (job_taskId job)],
                          ProcessJob job url])
              | Inr _ \<Rightarrow>
                  (case release_connection of
                     (res, evs') \<Rightarrow>
                       (res,
                        evs @ [LogInfo (''Loading into DB:'' @ [CHR 0x09] @ ''%s'')
                                 [Str (job_taskId job)],
                               ProcessJob job url] @ evs')))))"

text \<open>
  \<^verbatim>\<open>
  async def handleTask(task, root_url):
      taskId = task["status"]["taskId"]
      runs = task["status"]["runs"]
      for run in reversed(runs):
          message = {
              "exchange": stateToExchange[run["state"]],
              "payload": {"status": {"taskId": taskId, "runs": runs}, "runId": run["runId"]},
              "root_url": root_url,
          }
          try:
              taskRuns = await handleMessage(message, task["task"])
          except Exception as e:
              logger.exception(e)
          if taskRuns:
              jobFutures = [routine_to_future(
                  process_job_with_threads, run, root_url) for run in taskRuns]
              await await_futures(jobFutures)
  \<close>
  The loop runs over the reversed list. The local variable \<open>taskRuns\<close> is \<open>None\<close> while it is
  unbound, and reading it then raises \<open>UnboundLocalError\<close>; the handler leaves it as it was.
  \<open>stateToExchange\<close> is the dict built at import.
\<close>

definition make_message :: "string \<Rightarrow> tc_task \<Rightarrow> string \<Rightarrow> run \<Rightarrow> message" where
  "make_message ex t url r =
     \<lparr>exchange = ex,
      payload = \<lparr>p_status = \<lparr>taskId = taskId (status t), runs = runs (status t)\<rparr>,
                 p_runId = runId r\<rparr>,
      root_url = url\<rparr>"

fun handleTask_loop ::
  "env \<Rightarrow> (string \<rightharpoonup> string) \<Rightarrow> tc_task \<Rightarrow> string \<Rightarrow> run list \<Rightarrow> pulse_job list option
     \<Rightarrow> unit io" where
  "handleTask_loop env s2e t url [] taskRuns = (Inr (), [])"
| "handleTask_loop env s2e t url (r # rest) taskRuns =
     (case s2e (state r) of
        None \<Rightarrow> (Inl (KeyError (state r)), [])
      | Some ex \<Rightarrow>
          (case (case handleMessage env (make_message ex t url r) (task t) of
                   Inr jobs \<Rightarrow> (Some jobs, [HandleMessage (make_message ex t url r) (task t)])
                 | Inl e \<Rightarrow> (taskRuns, [HandleMessage (make_message ex t url r) (task t),
                                         LogException e])) of
             (None, evs1) \<Rightarrow> (Inl (UnboundLocalError ''taskRuns''), evs1)
           | (Some jobs, evs1) \<Rightarrow>
               (case (if jobs \<noteq> []
                      then await_futures
                             (map (\<lambda>j. routine_to_future (process_job_with_threads env) (j, url)) jobs)
                      else (Inr (), [])) of
                  (Inl e, evs2) \<Rightarrow> (Inl e, evs1 @ evs2)
                | (Inr _, evs2) \<Rightarrow>
                    (case handleTask_loop env s2e t url rest (Some jobs) of
                       (res, evs3) \<Rightarrow> (res, evs1 @ evs2 @ evs3)))))"

definition handleTask :: "env \<Rightarrow> (string \<rightharpoonup> string) \<Rightarrow> tc_task \<times> string \<Rightarrow> unit io" where
  "handleTask env s2e args =
     (case args of (t, url) \<Rightarrow> handleTask_loop env s2e t url (rev (runs (status t))) None)"

text \<open>
  \<^verbatim>\<open>
  async def fetchGroupTasks(taskGroupId, root_url):
      tasks = []
      query = {}
      continuationToken = ""
      asyncQueue = taskcluster.aio.Queue({"rootUrl": root_url}, session=session)
      while True:
          if continuationToken:
              query = {"continuationToken": continuationToken}
          response = await asyncQueue.listTaskGroup(taskGroupId, query=query)
          tasks.extend(response["tasks"])
          continuationToken = response.get("continuationToken")
          if continuationToken is None:
              break
          logger.info("Requesting more tasks. %s tasks so far...", len(tasks))
      return tasks
  \<close>
  The loop has no bound, so it is a partial function: \<open>None\<close> is the loop that never ends.
  Its state is the three local variables and the effects so far. \<open>if continuationToken:\<close>
  is Python's truth test, which the empty string fails.
\<close>

partial_function (option) fetchGroupTasks_loop ::
  "env \<Rightarrow> string \<Rightarrow> string \<Rightarrow> tc_task list \<Rightarrow> string option \<Rightarrow> string \<Rightarrow> event list
     \<Rightarrow> (tc_task list) io option" where
  "fetchGroupTasks_loop env taskGroupId url acc query token evs =
     (case listTaskGroup env url taskGroupId (if token \<noteq> [] then Some token else query) of
        Inl e \<Rightarrow>
          Some (Inl e,
                evs @ [ListTaskGroup url taskGroupId (if token \<noteq> [] then Some token else query)])
      | Inr response \<Rightarrow>
          (case continuationToken response of
             None \<Rightarrow>
               Some (Inr (acc @ tasks response),
                     evs @ [ListTaskGroup url taskGroupId
                              (if token \<noteq> [] then Some token else query)])
           | Some token' \<Rightarrow>
               fetchGroupTasks_loop env taskGroupId url (acc @ tasks response)
                 (if token \<noteq> [] then Some token else query) token'
                 (evs @ [ListTaskGroup url taskGroupId
                           (if token \<noteq> [] then Some token else query),
                         LogInfo ''Requesting more tasks. %s tasks so far...''
                           [Num (length (acc @ tasks response))]])))"

definition fetchGroupTasks :: "env \<Rightarrow> string \<Rightarrow> string \<Rightarrow> (tc_task list) io option" where
  "fetchGroupTasks env taskGroupId url = fetchGroupTasks_loop env taskGroupId url [] None [] []"

text \<open>
  \<^verbatim>\<open>
  async def processTasks(taskGroupId, root_url):
      try:
          tasks = await fetchGroupTasks(taskGroupId, root_url)
          logger.info("We have %s tasks to process", len(tasks))
      except Exception as e:
          logger.exception(e)

      if not tasks:  # No tasks to process
          return

      # Schedule and run tasks inside the thread pool executor
      taskFutures = [routine_to_future(handleTask, task, root_url) for task in tasks]
      await await_futures(taskFutures)
  \<close>
  The local variable \<open>tasks\<close> is bound by the assignment only: it is \<open>None\<close> while unbound,
  and \<open>if not tasks\<close> reads it.
\<close>

definition processTasks :: "env \<Rightarrow> (string \<rightharpoonup> string) \<Rightarrow> string \<Rightarrow> string \<Rightarrow> unit io option" where
  "processTasks env s2e taskGroupId url =
     (case fetchGroupTasks env taskGroupId url of
        None \<Rightarrow> None
      | Some fetched \<Rightarrow>
          (case (case fetched of
                   (Inr ts, evs) \<Rightarrow>
                     (Some ts, evs @ [LogInfo ''We have %s tasks to process'' [Num (length ts)]])
                 | (Inl e, evs) \<Rightarrow> (None, evs @ [LogException e])) of
             (None, evs1) \<Rightarrow> Some (Inl (UnboundLocalError ''tasks''), evs1)
           | (Some ts, evs1) \<Rightarrow>
               if ts = [] then Some (Inr (), evs1)
               else (case await_futures
                            (map (\<lambda>t. routine_to_future (handleTask env s2e) (t, url)) ts) of
                       (res, evs2) \<Rightarrow> Some (res, evs1 @ evs2))))"

section \<open>etl/management/commands/ingest.py: the push path\<close>

text \<open>
  The world of the push path: the rows of the \<open>Repository\<close> table in the order a query
  returns them, \<open>fetch_json\<close> of \<open>etl/common.py\<close> on a comparison URL and on a commit URL
  (it raises on an HTTP error status), and \<open>PushLoader().process(payload, exchange, root_url)\<close>.
\<close>

record push_env =
  repositories :: "repository list"
  fetch_comparison :: "string \<Rightarrow> exn + comparison"
  fetch_commit :: "string \<Rightarrow> exn + fetched_commit"
  push_process :: "push_payload \<Rightarrow> string \<Rightarrow> string \<Rightarrow> exn + unit"

definition GITHUB_API :: string where
  "GITHUB_API = ''https://api.github.com''"

text \<open>
  \<^verbatim>\<open>
  def fetchApi(path):
      ...
      return fetch_json("{}/{}".format(GITHUB_API, path))

  def compareUrl(_repo, base, commit):
      return fetchApi("repos/{}/{}/compare/{}...{}".format(
          _repo["owner"], _repo["repo"], base, commit))
  \<close>
\<close>

definition compare_url :: "repo_info \<Rightarrow> string \<Rightarrow> string \<Rightarrow> string" where
  "compare_url r base commit =
     GITHUB_API @ ''/'' @
       (''repos/'' @ m_owner r @ ''/'' @ m_repo r @ ''/compare/'' @ base @ ''...'' @ commit)"

definition compareUrl :: "push_env \<Rightarrow> repo_info \<Rightarrow> string \<Rightarrow> string \<Rightarrow> comparison io" where
  "compareUrl penv r base commit =
     (fetch_comparison penv (compare_url r base commit),
      [FetchJson (compare_url r base commit)])"

text \<open>
  \<^verbatim>\<open>
  def repo_meta(project):
      _repo = Repository.objects.filter(name=project)[0]
      assert _repo, "The project {} you specified is incorrect".format(project)
      splitUrl = _repo.url.split("/")
      return {
          "url": _repo.url,
          "branch": _repo.branch,
          "owner": splitUrl[3],
          "repo": splitUrl[4],
          "tc_root_url": _repo.tc_root_url,
      }
  \<close>
  Element 0 of an empty query result raises \<open>IndexError\<close>; a model instance is true, so the
  assertion passes whenever it is reached.
\<close>

definition repo_meta :: "push_env \<Rightarrow> string \<Rightarrow> repo_info io" where
  "repo_meta penv project =
     (case index (filter (\<lambda>r. repo_name r = project) (repositories penv)) 0 of
        Inl e \<Rightarrow> (Inl e, [RepositoryFilter project])
      | Inr r \<Rightarrow>
          (case index (split (CHR ''/'') (repo_url r)) 3 of
             Inl e \<Rightarrow> (Inl e, [RepositoryFilter project])
           | Inr owner \<Rightarrow>
               (case index (split (CHR ''/'') (repo_url r)) 4 of
                  Inl e \<Rightarrow> (Inl e, [RepositoryFilter project])
                | Inr rp \<Rightarrow>
                    (Inr \<lparr>m_url = repo_url r, m_branch = repo_branch r, m_owner = owner,
                          m_repo = rp, m_tc_root_url = repo_tc_root_url r\<rparr>,
                     [RepositoryFilter project]))))"

text \<open>
  \<^verbatim>\<open>
  def query_data(repo_meta, commit):
      eventBaseSha = repo_meta["branch"]
      compareResponse = compareUrl(repo_meta, repo_meta["branch"], commit)
      mergeBaseCommit = compareResponse.get("merge_base_commit")
      if mergeBaseCommit:
          logger.info("We have a merge commit. We need to find the right eventBaseSha")
          parents = compareResponse["merge_base_commit"]["parents"]
          for parent in parents:
              _commit = fetch_json(parent["url"])
              if _commit["parents"]:
                  eventBaseSha = parent["sha"]
                  logger.info("We have a new base: %s", eventBaseSha)
                  break
          compareResponse = compareUrl(repo_meta, eventBaseSha, commit)

      commits = []
      for _commit in compareResponse["commits"]:
          commits.append({
              "message": _commit["commit"]["message"],
              "author": _commit["commit"]["author"],
              "committer": _commit["commit"]["committer"],
              "id": _commit["sha"],
          })

      return eventBaseSha, commits
  \<close>
  \<open>find_base\<close> is the loop over the parents: its result is \<open>eventBaseSha\<close> when the loop is
  left, by \<open>break\<close> or at the end of the list.
\<close>

fun find_base :: "push_env \<Rightarrow> parent_ref list \<Rightarrow> string \<Rightarrow> string io" where
  "find_base penv [] eventBaseSha = (Inr eventBaseSha, [])"
| "find_base penv (p # ps) eventBaseSha =
     (case fetch_commit penv (parent_url p) of
        Inl e \<Rightarrow> (Inl e, [FetchJson (parent_url p)])
      | Inr c \<Rightarrow>
          if parents c \<noteq> []
          then (Inr (parent_sha p),
                [FetchJson (parent_url p),
                 LogInfo ''We have a new base: %s'' [Str (parent_sha p)]])
          else (case find_base penv ps eventBaseSha of
                  (res, evs) \<Rightarrow> (res, FetchJson (parent_url p) # evs)))"

definition push_commit_of :: "compared_commit \<Rightarrow> push_commit" where
  "push_commit_of c =
     \<lparr>pc_message = c_message c, pc_author = c_author c, pc_committer = c_committer c,
      pc_id = c_sha c\<rparr>"

definition query_data :: "push_env \<Rightarrow> repo_info \<Rightarrow> string \<Rightarrow> (string \<times> push_commit list) io" where
  "query_data penv r commit =
     (case compareUrl penv r (m_branch r) commit of
        (Inl e, evs) \<Rightarrow> (Inl e, evs)
      | (Inr compareResponse, evs) \<Rightarrow>
          (case merge_base_commit compareResponse of
             None \<Rightarrow> (Inr (m_branch r, map push_commit_of (commits compareResponse)), evs)
           | Some mergeBaseCommit \<Rightarrow>
               (case find_base penv (mb_parents mergeBaseCommit) (m_branch r) of
                  (Inl e, evs1) \<Rightarrow>
                    (Inl e,
                     evs @ [LogInfo
                              ''We have a merge commit. We need to find the right eventBaseSha'' []]
                         @ evs1)
                | (Inr eventBaseSha, evs1) \<Rightarrow>
                    (case compareUrl penv r eventBaseSha commit of
                       (Inl e, evs2) \<Rightarrow>
                         (Inl e,
                          evs @ [LogInfo
                                   ''We have a merge commit. We need to find the right eventBaseSha'' []]
                              @ evs1 @ evs2)
                     | (Inr compareResponse', evs2) \<Rightarrow>
                         (Inr (eventBaseSha, map push_commit_of (commits compareResponse')),
                          evs @ [LogInfo
                                   ''We have a merge commit. We need to find the right eventBaseSha'' []]
                              @ evs1 @ evs2)))))"

text \<open>
  \<^verbatim>\<open>
  def github_push_to_pulse(repo_meta, commit):
      event_base_sha, commits = query_data(repo_meta, commit)
      return {
          "exchange": "exchange/taskcluster-github/v1/push",
          "routingKey": "primary.{}.{}".format(repo_meta["owner"], repo_meta["repo"]),
          "payload": {
              "organization": repo_meta["owner"],
              "details": {
                  "event.head.repo.url": "{}.git".format(repo_meta["url"]),
                  "event.base.repo.branch": repo_meta["branch"],
                  "event.base.sha": event_base_sha,
                  "event.head.sha": commit,
              },
              "body": {"commits": commits},
              "repository": repo_meta["repo"]
          }
      }
  \<close>
\<close>

definition github_push_to_pulse :: "push_env \<Rightarrow> repo_info \<Rightarrow> string \<Rightarrow> pulse io" where
  "github_push_to_pulse penv r commit =
     (case query_data penv r commit of
        (Inl e, evs) \<Rightarrow> (Inl e, evs)
      | (Inr (event_base, cs), evs) \<Rightarrow>
          (Inr \<lparr>pulse_exchange = ''exchange/taskcluster-github/v1/push'',
                routingKey = ''primary.'' @ m_owner r @ ''.'' @ m_repo r,
                pulse_payload =
                  \<lparr>organization = m_owner r,
                   details = \<lparr>event_head_repo_url = m_url r @ ''.git'',
                              event_base_repo_branch = m_branch r,
                              event_base_sha = event_base,
                              event_head_sha = commit\<rparr>,
                   body_commits = cs,
                   repository = m_repo r\<rparr>\<rparr>,
           evs))"

text \<open>
  \<^verbatim>\<open>
  def ingestGitPush(project, commit):
      _repo = repo_meta("fenix")
      pulse = github_push_to_pulse(_repo, commit["sha"])
      PushLoader().process(pulse["payload"], pulse["exchange"], _repo["tc_root_url"])
  \<close>
  \<open>commit\<close> is a commit of GitHub's commit list, of which the code reads \<open>commit["sha"]\<close>.
\<close>

definition ingestGitPush :: "push_env \<Rightarrow> string \<Rightarrow> listed_commit \<Rightarrow> unit io" where
  "ingestGitPush penv project commit =
     (case repo_meta penv ''fenix'' of
        (Inl e, evs) \<Rightarrow> (Inl e, evs)
      | (Inr r, evs) \<Rightarrow>
          (case github_push_to_pulse penv r (commit_sha commit) of
             (Inl e, evs1) \<Rightarrow> (Inl e, evs @ evs1)
           | (Inr p, evs1) \<Rightarrow>
               (case push_process penv (pulse_payload p) (pulse_exchange p) (m_tc_root_url r) of
                  Inl e \<Rightarrow>
                    (Inl e,
                     evs @ evs1 @
                       [PushLoaderProcess (pulse_payload p) (pulse_exchange p) (m_tc_root_url r)])
                | Inr u \<Rightarrow>
                    (Inr (),
                     evs @ evs1 @
                       [PushLoaderProcess (pulse_payload p) (pulse_exchange p) (m_tc_root_url r)]))))"

section \<open>Observations and example inputs\<close>

text \<open>The calls of the normalization collaborator in a trace, in order: message and task definition.\<close>

fun invocations :: "event list \<Rightarrow> (message \<times> string) list" where
  "invocations [] = []"
| "invocations (HandleMessage m d # evs) = (m, d) # invocations evs"
| "invocations (ev # evs) = invocations evs"

text \<open>
  A forward mapping with one exchange per run state of the task service, and the dict the
  module-level loop makes of it.
\<close>

definition example_EXCHANGE_EVENT_MAP :: "(string \<times> string) list" where
  "example_EXCHANGE_EVENT_MAP =
     [(''exchange/taskcluster-queue/v1/task-pending'', ''pending''),
      (''exchange/taskcluster-queue/v1/task-running'', ''running''),
      (''exchange/taskcluster-queue/v1/task-completed'', ''completed''),
      (''exchange/taskcluster-queue/v1/task-failed'', ''failed''),
      (''exchange/taskcluster-queue/v1/task-exception'', ''exception'')]"

definition example_s2e :: "string \<rightharpoonup> string" where
  "example_s2e = projr (stateToExchange example_EXCHANGE_EVENT_MAP)"

text \<open>A job named after a task and a run, and a listing without tasks.\<close>

definition job_of :: "string \<Rightarrow> nat \<Rightarrow> pulse_job" where
  "job_of tid rid = \<lparr>job_taskId = tid, job_runId = rid, job_body = ''job''\<rparr>"

definition empty_listing :: listing where
  "empty_listing = \<lparr>tasks = [], continuationToken = None\<rparr>"

text \<open>A world whose job loader fails on every job.\<close>

definition failing_loader :: env where
  "failing_loader =
     \<lparr>handleMessage = (\<lambda>m d. Inr []),
      process_job = (\<lambda>j u. Inl (Raised ''database error'')),
      listTaskGroup = (\<lambda>u g q. Inr empty_listing)\<rparr>"

text \<open>
  A world whose handler fails on the run with the given runId and yields one job, named after
  task and run, for any other run.
\<close>

definition handler_failing_on :: "nat \<Rightarrow> env" where
  "handler_failing_on n =
     \<lparr>handleMessage =
        (\<lambda>m d. if p_runId (payload m) = n then Inl (Raised ''malformed run'')
                else Inr [job_of (taskId (p_status (payload m))) (p_runId (payload m))]),
      process_job = (\<lambda>j u. Inr ()),
      listTaskGroup = (\<lambda>u g q. Inr empty_listing)\<rparr>"

text \<open>A task with two runs: run 0 ended in an exception and was retried as run 1.\<close>

definition two_runs :: tc_task where
  "two_runs =
     \<lparr>status = \<lparr>taskId = ''T'', runs = [\<lparr>runId = 0, state = ''exception''\<rparr>,
                                         \<lparr>runId = 1, state = ''completed''\<rparr>]\<rparr>,
      task = ''definition''\<rparr>"

text \<open>A task with a single, completed run.\<close>

definition one_run :: "string \<Rightarrow> tc_task" where
  "one_run tid =
     \<lparr>status = \<lparr>taskId = tid, runs = [\<lparr>runId = 0, state = ''completed''\<rparr>]\<rparr>,
      task = ''definition''\<rparr>"

text \<open>
  A world whose task group is one page of three tasks, and whose handler fails on task T2 and
  yields no job for the others.
\<close>

definition three_tasks :: env where
  "three_tasks =
     \<lparr>handleMessage =
        (\<lambda>m d. if taskId (p_status (payload m)) = ''T2'' then Inl (Raised ''malformed task'')
                else Inr []),
      process_job = (\<lambda>j u. Inr ()),
      listTaskGroup =
        (\<lambda>u g q. Inr \<lparr>tasks = [one_run ''T1'', one_run ''T2'', one_run ''T3''],
                       continuationToken = None\<rparr>)\<rparr>"

text \<open>
  A task whose first run ended in a state that the example dict has no exchange for, and was
  retried as run 1.
\<close>

definition unknown_state_run :: tc_task where
  "unknown_state_run =
     \<lparr>status = \<lparr>taskId = ''T'', runs = [\<lparr>runId = 0, state = ''unknown-state''\<rparr>,
                                         \<lparr>runId = 1, state = ''completed''\<rparr>]\<rparr>,
      task = ''definition''\<rparr>"

text \<open>A world whose handler never raises and yields no job.\<close>

definition quiet_handler :: env where
  "quiet_handler =
     \<lparr>handleMessage = (\<lambda>m d. Inr []),
      process_job = (\<lambda>j u. Inr ()),
      listTaskGroup = (\<lambda>u g q. Inr empty_listing)\<rparr>"

text \<open>A world whose task service answers every listing request with an HTTP error.\<close>

definition http_error :: env where
  "http_error =
     \<lparr>handleMessage = (\<lambda>m d. Inr []),
      process_job = (\<lambda>j u. Inr ()),
      listTaskGroup = (\<lambda>u g q. Inl (Raised ''HTTP 500''))\<rparr>"

text \<open>The listing requests of a trace, in order: the query of each.\<close>

fun requests :: "event list \<Rightarrow> string option list" where
  "requests [] = []"
| "requests (ListTaskGroup u g q # evs) = q # requests evs"
| "requests (ev # evs) = requests evs"

text \<open>
  A finite chain of pages of a task group: the first page is the answer to the query \<open>q\<close>,
  each page but the last carries the continuation token that the next page is the answer to,
  and the last page carries none.
\<close>

fun page_chain :: "env \<Rightarrow> string \<Rightarrow> string \<Rightarrow> string option \<Rightarrow> listing list \<Rightarrow> bool" where
  "page_chain env url g q [] = False"
| "page_chain env url g q (p # ps) =
     (listTaskGroup env url g q = Inr p \<and>
      (case continuationToken p of
         None \<Rightarrow> ps = []
       | Some token \<Rightarrow> page_chain env url g (Some token) ps))"

text \<open>
  A world whose task group has two pages: the first is linked to the second by the empty
  string as continuation token.
\<close>

definition empty_token :: env where
  "empty_token =
     \<lparr>handleMessage = (\<lambda>m d. Inr []),
      process_job = (\<lambda>j u. Inr ()),
      listTaskGroup =
        (\<lambda>u g q. case q of
            None \<Rightarrow> Inr \<lparr>tasks = [one_run ''T1''], continuationToken = Some ''''\<rparr>
          | Some token \<Rightarrow> Inr \<lparr>tasks = [one_run ''T2''], continuationToken = None\<rparr>)\<rparr>"

text \<open>A world whose task group has three pages, linked by the tokens \<open>a\<close> and \<open>b\<close>.\<close>

definition three_pages :: env where
  "three_pages =
     \<lparr>handleMessage = (\<lambda>m d. Inr []),
      process_job = (\<lambda>j u. Inr ()),
      listTaskGroup =
        (\<lambda>u g q. case q of
            None \<Rightarrow> Inr \<lparr>tasks = [one_run ''T1''], continuationToken = Some ''a''\<rparr>
          | Some token \<Rightarrow>
              if token = ''a''
              then Inr \<lparr>tasks = [one_run ''T2'', one_run ''T3''], continuationToken = Some ''b''\<rparr>
              else Inr \<lparr>tasks = [one_run ''T4''], continuationToken = None\<rparr>)\<rparr>"

subsection \<open>Observations and example inputs of the push path\<close>

text \<open>The URLs fetched from GitHub in a trace, and the names the \<open>Repository\<close> table was asked for.\<close>

fun fetched :: "event list \<Rightarrow> string list" where
  "fetched [] = []"
| "fetched (FetchJson u # evs) = u # fetched evs"
| "fetched (ev # evs) = fetched evs"

fun repository_queries :: "event list \<Rightarrow> string list" where
  "repository_queries [] = []"
| "repository_queries (RepositoryFilter n # evs) = n # repository_queries evs"
| "repository_queries (ev # evs) = repository_queries evs"

text \<open>The effects of talking to GitHub: a fetch or a log record.\<close>

fun github_event :: "event \<Rightarrow> bool" where
  "github_event (FetchJson u) = True"
| "github_event (LogInfo f as) = True"
| "github_event ev = False"



text \<open>
  A world with two repositories, the second of them \<open>fenix\<close>, in which every comparison
  reports one commit and a merge base with the parents \<open>P1\<close> (a root commit) and \<open>P2\<close> (a
  commit with a parent).
\<close>

definition fenix_row :: repository where
  "fenix_row =
     \<lparr>repo_name = ''fenix'', repo_url = ''https://github.com/mozilla-mobile/fenix'',
      repo_branch = ''master'', repo_tc_root_url = ''https://firefox-ci-tc.services.mozilla.com''\<rparr>"

definition other_row :: repository where
  "other_row =
     \<lparr>repo_name = ''reference-browser'',
      repo_url = ''https://github.com/mozilla-mobile/reference-browser'',
      repo_branch = ''main'', repo_tc_root_url = ''https://community-tc.services.mozilla.com''\<rparr>"

definition fenix_info :: repo_info where
  "fenix_info =
     \<lparr>m_url = ''https://github.com/mozilla-mobile/fenix'', m_branch = ''master'',
      m_owner = ''mozilla-mobile'', m_repo = ''fenix'',
      m_tc_root_url = ''https://firefox-ci-tc.services.mozilla.com''\<rparr>"

definition P1 :: parent_ref where
  "P1 = \<lparr>parent_sha = ''1111'', parent_url = ''https://api.github.com/commits/1111''\<rparr>"

definition P2 :: parent_ref where
  "P2 = \<lparr>parent_sha = ''2222'', parent_url = ''https://api.github.com/commits/2222''\<rparr>"

definition merge_world :: push_env where
  "merge_world =
     \<lparr>repositories = [other_row, fenix_row],
      fetch_comparison =
        (\<lambda>u. Inr \<lparr>commits = [\<lparr>c_sha = ''abcd'', c_message = ''fix'', c_author = ''ann'',
                                 c_committer = ''bob''\<rparr>],
                    merge_base_commit = Some \<lparr>mb_parents = [P1, P2]\<rparr>\<rparr>),
      fetch_commit =
        (\<lambda>u. if u = ''https://api.github.com/commits/2222''
              then Inr \<lparr>parents = [P1]\<rparr> else Inr \<lparr>parents = []\<rparr>),
      push_process = (\<lambda>pl ex u. Inr ())\<rparr>"

text \<open>The push that this world's \<open>fenix\<close> repository gives for the commit \<open>abcd\<close>.\<close>

definition fenix_push :: push_payload where
  "fenix_push =
     \<lparr>organization = ''mozilla-mobile'',
      details = \<lparr>event_head_repo_url = ''https://github.com/mozilla-mobile/fenix.git'',
                 event_base_repo_branch = ''master'',
                 event_base_sha = ''2222'',
                 event_head_sha = ''abcd''\<rparr>,
      body_commits = [\<lparr>pc_message = ''fix'', pc_author = ''ann'', pc_committer = ''bob'',
                        pc_id = ''abcd''\<rparr>],
      repository = ''fenix''\<rparr>"

section \<open>Properties of the string functions\<close>

lemma split_max_not_Nil: "split_max sep n s \<noteq> []"
  by (induction sep n s rule: split_max.induct) (auto split: list.splits)

lemma hd_split_max_Suc: "hd (split_max sep (Suc n) s) = takeWhile (\<lambda>c. c \<noteq> sep) s"
proof (induction s)
  case Nil
  show ?case by simp
next
  case (Cons c cs)
  show ?case
  proof (cases "c = sep")
    case True
    then show ?thesis by simp
  next
    case False
    obtain w ws where w: "split_max sep (Suc n) cs = w # ws"
      using split_max_not_Nil [of sep "Suc n" cs] by (cases "split_max sep (Suc n) cs") auto
    with Cons False show ?thesis by simp
  qed
qed

lemma get_guid_root_takeWhile: "get_guid_root guid = takeWhile (\<lambda>c. c \<noteq> CHR ''_'') guid"
proof (cases "CHR ''_'' \<in> set guid")
  case True
  then show ?thesis
    using hd_split_max_Suc [of "CHR ''_''" 0 guid] by (simp add: get_guid_root_def)
next
  case False
  then have "takeWhile (\<lambda>c. c \<noteq> CHR ''_'') guid = guid"
    by auto
  with False show ?thesis by (simp only: get_guid_root_def if_False)
qed

lemma get_guid_root_no_underscore: "CHR ''_'' \<notin> set (get_guid_root guid)"
proof
  assume "CHR ''_'' \<in> set (get_guid_root guid)"
  then have "CHR ''_'' \<in> set (takeWhile (\<lambda>c. c \<noteq> CHR ''_'') guid)"
    by (simp add: get_guid_root_takeWhile)
  then show False by (auto dest: set_takeWhileD)
qed

section \<open>Properties of the inverse mapping\<close>

lemma find_append_cases:
  "find P (xs @ ys) = (case find P xs of None \<Rightarrow> find P ys | Some x \<Rightarrow> Some x)"
  by (induction xs) simp_all

lemma stateToExchange_loop_lookup:
  "\<exists>d'. stateToExchange_loop d items = Inr d' \<and>
     (\<forall>s. d' s = (case find (\<lambda>kv. snd kv = s) (rev items) of
                    None \<Rightarrow> d s | Some kv \<Rightarrow> Some (fst kv)))"
proof (induction items arbitrary: d)
  case Nil
  show ?case by simp
next
  case (Cons kv rest)
  obtain key val where kv: "kv = (key, val)" by (cases kv)
  from Cons [of "d(val \<mapsto> key)"] obtain d' where
    d': "stateToExchange_loop (d(val \<mapsto> key)) rest = Inr d'"
    and look: "\<And>s. d' s = (case find (\<lambda>kv. snd kv = s) (rev rest) of
                    None \<Rightarrow> (d(val \<mapsto> key)) s | Some kv \<Rightarrow> Some (fst kv))"
    by blast
  have "d' s = (case find (\<lambda>kv. snd kv = s) (rev (kv # rest)) of
                    None \<Rightarrow> d s | Some kv \<Rightarrow> Some (fst kv))" for s
    by (simp add: look kv find_append_cases split: option.splits)
  with d' kv show ?case by simp
qed

lemma find_distinct_snd:
  "distinct (map snd items) \<Longrightarrow>
   (find (\<lambda>kv. snd kv = s) items = Some kv) = (kv \<in> set items \<and> snd kv = s)"
  by (induction items) (auto simp: rev_image_eqI)

lemma example_s2e_simps:
  "example_s2e ''completed'' = Some ''exchange/taskcluster-queue/v1/task-completed''"
  "example_s2e ''exception'' = Some ''exchange/taskcluster-queue/v1/task-exception''"
  by (simp_all add: example_s2e_def example_EXCHANGE_EVENT_MAP_def stateToExchange_def)

lemma example_s2e_unknown: "example_s2e ''unknown-state'' = None"
  by (simp add: example_s2e_def example_EXCHANGE_EVENT_MAP_def stateToExchange_def)

section \<open>Properties of the task path\<close>

lemma await_futures_result: "fst (await_futures fs) = Inr ()"
  by (induction fs) (auto split: prod.splits sum.splits)

lemma await_futures_events:
  "snd (await_futures fs) =
     concat (map (\<lambda>fut. snd fut @ (case fst fut of Inl e \<Rightarrow> [LogException e] | Inr u \<Rightarrow> [])) fs)"
  by (induction fs) (auto split: prod.splits sum.splits)

lemma invocations_append: "invocations (xs @ ys) = invocations xs @ invocations ys"
  by (induction xs rule: invocations.induct) simp_all

lemma invocations_load_jobs:
  "invocations (snd (await_futures
      (map (\<lambda>j. routine_to_future (process_job_with_threads env) (j, url)) jobs))) = []"
  by (induction jobs)
     (auto simp: routine_to_future_def process_job_with_threads_def acquire_connection_def
      release_connection_def invocations_append
           split: prod.splits sum.splits)

text \<open>
  The loop of \<open>handleTask\<close> over any list of runs, from any binding of \<open>taskRuns\<close>: when
  every state has an exchange and no call of the handler raises, the handler is called once
  for each run, in the order of the list.
\<close>

lemma handleTask_loop_invocations:
  assumes "\<forall>r \<in> set rs. \<exists>ex. s2e (state r) = Some ex \<and>
              \<not> isl (handleMessage env (make_message ex t url r) (task t))"
  shows "fst (handleTask_loop env s2e t url rs taskRuns) = Inr () \<and>
         invocations (snd (handleTask_loop env s2e t url rs taskRuns)) =
           map (\<lambda>r. (make_message (the (s2e (state r))) t url r, task t)) rs"
  using assms
proof (induction rs arbitrary: taskRuns)
  case Nil
  show ?case by simp
next
  case (Cons r rest)
  from Cons.prems obtain ex jobs where ex: "s2e (state r) = Some ex"
    and hm: "handleMessage env (make_message ex t url r) (task t) = Inr jobs"
    by (cases "handleMessage env (make_message (the (s2e (state r))) t url r) (task t)") auto
  from Cons.prems have rest: "\<forall>r \<in> set rest. \<exists>ex. s2e (state r) = Some ex \<and>
              \<not> isl (handleMessage env (make_message ex t url r) (task t))"
    by simp
  note ih = Cons.IH [OF rest, of "Some jobs"]
  let ?load = "await_futures
      (map (\<lambda>j. routine_to_future (process_job_with_threads env) (j, url)) jobs)"
  have res2: "fst ?load = Inr ()"
    by (rule await_futures_result)
  have evs2: "invocations (snd ?load) = []"
    by (rule invocations_load_jobs)
  show ?case
  proof (cases "jobs = []")
    case True
    with ih ex hm show ?thesis
      by (simp add: case_prod_beta)
  next
    case False
    obtain evs where "?load = (Inr (), evs)"
      using res2 by (cases ?load) auto
    with False ih ex hm evs2 show ?thesis
      by (simp add: case_prod_beta invocations_append)
  qed
qed

lemma fetchGroupTasks_three_tasks:
  "fetchGroupTasks three_tasks ''G'' ''https://tc'' =
     Some (Inr [one_run ''T1'', one_run ''T2'', one_run ''T3''],
           [ListTaskGroup ''https://tc'' ''G'' None])"
  by (simp add: fetchGroupTasks_def fetchGroupTasks_loop.simps three_tasks_def)

lemma handleTask_three_tasks:
  "handleTask three_tasks example_s2e (one_run tid, ''https://tc'') =
     (if tid = ''T2'' then
        (Inl (UnboundLocalError ''taskRuns''),
         [HandleMessage
            (make_message ''exchange/taskcluster-queue/v1/task-completed'' (one_run tid)
               ''https://tc'' \<lparr>runId = 0, state = ''completed''\<rparr>) ''definition'',
          LogException (Raised ''malformed task'')])
      else
        (Inr (),
         [HandleMessage
            (make_message ''exchange/taskcluster-queue/v1/task-completed'' (one_run tid)
               ''https://tc'' \<lparr>runId = 0, state = ''completed''\<rparr>) ''definition'']))"
  by (simp add: handleTask_def one_run_def example_s2e_simps three_tasks_def make_message_def)

section \<open>Properties of the pagination\<close>

lemma requests_append: "requests (xs @ ys) = requests xs @ requests ys"
  by (induction xs rule: requests.induct) simp_all

lemma page_chain_not_Nil: "page_chain env url g q ps \<Longrightarrow> ps \<noteq> []"
  by (cases ps) simp_all

lemma fetchGroupTasks_loop_chain:
  assumes "page_chain env url g q' pages"
    and "\<forall>p \<in> set pages. continuationToken p \<noteq> Some []"
    and "q' = (if token \<noteq> [] then Some token else query)"
  shows "\<exists>evs'. fetchGroupTasks_loop env g url acc query token evs =
             Some (Inr (acc @ concat (map tasks pages)), evs @ evs') \<and>
           requests evs' = q' # map continuationToken (butlast pages)"
  using assms
proof (induction pages arbitrary: acc query token evs q')
  case Nil
  then show ?case by simp
next
  case (Cons p ps)
  from Cons.prems have lst: "listTaskGroup env url g q' = Inr p" by simp
  show ?case
  proof (cases "continuationToken p")
    case None
    with Cons.prems have "ps = []" by simp
    with None lst Cons.prems(3) show ?thesis
      by (subst fetchGroupTasks_loop.simps) simp
  next
    case (Some tok)
    with Cons.prems have chain: "page_chain env url g (Some tok) ps"
      and tok: "tok \<noteq> []" by auto
    from Cons.prems have ne: "\<forall>p \<in> set ps. continuationToken p \<noteq> Some []" by simp
    from tok have q: "Some tok = (if tok \<noteq> [] then Some tok else q')" by simp
    from Cons.IH [OF chain ne q, of "acc @ tasks p"
        "evs @ [ListTaskGroup url g q',
                LogInfo ''Requesting more tasks. %s tasks so far...''
                  [Num (length (acc @ tasks p))]]"]
    obtain evs' where
      r: "fetchGroupTasks_loop env g url (acc @ tasks p) q' tok
            (evs @ [ListTaskGroup url g q',
                LogInfo ''Requesting more tasks. %s tasks so far...''
                  [Num (length (acc @ tasks p))]]) =
           Some (Inr ((acc @ tasks p) @ concat (map tasks ps)),
                 (evs @ [ListTaskGroup url g q',
                LogInfo ''Requesting more tasks. %s tasks so far...''
                  [Num (length (acc @ tasks p))]]) @ evs')"
      and rq: "requests evs' = Some tok # map continuationToken (butlast ps)"
      by blast
    have ps: "ps \<noteq> []" using chain by (rule page_chain_not_Nil)
    have "fetchGroupTasks_loop env g url acc query token evs =
           Some (Inr (acc @ concat (map tasks (p # ps))),
                 evs @ ([ListTaskGroup url g q',
                LogInfo ''Requesting more tasks. %s tasks so far...''
                  [Num (length (acc @ tasks p))]] @ evs'))"
      using lst Some r Cons.prems(3)
      by (subst fetchGroupTasks_loop.simps) simp
    moreover have "requests ([ListTaskGroup url g q',
                LogInfo ''Requesting more tasks. %s tasks so far...''
                  [Num (length (acc @ tasks p))]] @ evs') =
            q' # map continuationToken (butlast (p # ps))"
      using rq ps Some by simp
    ultimately show ?thesis by blast
  qed
qed

lemma empty_token_loops:
  "fetchGroupTasks_loop empty_token g url acc None [] evs = None"
proof -
  have "\<not> (env = empty_token \<and> query = None \<and> token = [])"
    if run: "fetchGroupTasks_loop env g url acc query token evs = Some y"
    for env g url acc query token evs y
  proof (rule fetchGroupTasks_loop.raw_induct
          [where P = "\<lambda>env g url acc query token evs y.
                        \<not> (env = empty_token \<and> query = None \<and> token = [])", OF _ run])
    fix f :: "env \<Rightarrow> string \<Rightarrow> string \<Rightarrow> tc_task list \<Rightarrow> string option \<Rightarrow> string \<Rightarrow> event list
                \<Rightarrow> (tc_task list) io option"
      and env g url acc query token evs y
    assume ih: "\<And>env g url acc query token evs y.
      f env g url acc query token evs = Some y \<Longrightarrow>
      \<not> (env = empty_token \<and> query = None \<and> token = [])"
    assume step: "(case listTaskGroup env url g (if token \<noteq> [] then Some token else query) of
        Inl e \<Rightarrow>
          Some (Inl e,
                evs @ [ListTaskGroup url g (if token \<noteq> [] then Some token else query)])
      | Inr response \<Rightarrow>
          (case continuationToken response of
             None \<Rightarrow>
               Some (Inr (acc @ tasks response),
                     evs @ [ListTaskGroup url g
                              (if token \<noteq> [] then Some token else query)])
           | Some token' \<Rightarrow>
               f env g url (acc @ tasks response)
                 (if token \<noteq> [] then Some token else query) token'
                 (evs @ [ListTaskGroup url g
                           (if token \<noteq> [] then Some token else query),
                         LogInfo ''Requesting more tasks. %s tasks so far...''
                           [Num (length (acc @ tasks response))]]))) = Some y"
    show "\<not> (env = empty_token \<and> query = None \<and> token = [])"
    proof
      assume "env = empty_token \<and> query = None \<and> token = []"
      with step have "f empty_token g url (acc @ [one_run ''T1'']) None []
                 (evs @ [ListTaskGroup url g None,
                         LogInfo ''Requesting more tasks. %s tasks so far...''
                           [Num (length (acc @ [one_run ''T1'']))]]) = Some y"
        by (simp add: empty_token_def)
      from ih [OF this] show False by simp
    qed
  qed
  then have "fetchGroupTasks_loop empty_token g url acc None [] evs \<noteq> Some y" for y
    by blast
  then show ?thesis
    by (cases "fetchGroupTasks_loop empty_token g url acc None [] evs") blast+
qed

section \<open>Properties of the push path\<close>



lemma github_find_base: "\<forall>ev \<in> set (snd (find_base penv ps branch)). github_event ev"
  by (induction ps) (auto split: sum.splits prod.splits)

lemma github_query_data: "\<forall>ev \<in> set (snd (query_data penv r commit)). github_event ev"
proof -
  have fb: "\<forall>ev \<in> set evs. github_event ev" if "find_base penv ps b = (res, evs)" for ps b res evs
    using github_find_base [of penv ps b] that by simp
  show ?thesis
    by (auto simp: query_data_def compareUrl_def split: sum.splits prod.splits option.splits
        dest: fb)
qed

lemma repository_queries_github:
  "\<forall>ev \<in> set evs. github_event ev \<Longrightarrow> repository_queries evs = []"
  by (induction evs rule: repository_queries.induct) simp_all

lemma repository_queries_append:
  "repository_queries (xs @ ys) = repository_queries xs @ repository_queries ys"
  by (induction xs rule: repository_queries.induct) simp_all

lemma snd_repo_meta: "snd (repo_meta penv project) = [RepositoryFilter project]"
  by (simp add: repo_meta_def split: sum.splits)

lemma github_push_to_pulse_events:
  "\<forall>ev \<in> set (snd (github_push_to_pulse penv r commit)). github_event ev"
  using github_query_data [of penv r commit]
  by (auto simp: github_push_to_pulse_def split: prod.splits sum.splits)

lemma github_push_to_pulse_fields:
  "fst (github_push_to_pulse penv r commit) = Inr p \<Longrightarrow>
     organization (pulse_payload p) = m_owner r \<and> repository (pulse_payload p) = m_repo r \<and>
     event_base_repo_branch (details (pulse_payload p)) = m_branch r \<and>
     event_head_repo_url (details (pulse_payload p)) = m_url r @ ''.git'' \<and>
     event_head_sha (details (pulse_payload p)) = commit"
  by (auto simp: github_push_to_pulse_def split: prod.splits sum.splits)

lemma github_event_not_loader:
  "\<forall>ev \<in> set evs. github_event ev \<Longrightarrow> PushLoaderProcess pl ex u \<notin> set evs"
  by auto

lemma split_fenix_url:
  "split (CHR ''/'') ''https://github.com/mozilla-mobile/fenix'' =
     [''https:'', [], ''github.com'', ''mozilla-mobile'', ''fenix'']"
  by (simp add: split_def)

lemma repo_meta_merge_world:
  "repo_meta merge_world ''fenix'' = (Inr fenix_info, [RepositoryFilter ''fenix''])"
  by (simp add: repo_meta_def merge_world_def other_row_def fenix_row_def index_def
      split_fenix_url fenix_info_def)

lemma find_base_merge_world:
  "find_base merge_world [P1, P2] b =
     (Inr ''2222'',
      [FetchJson ''https://api.github.com/commits/1111'',
       FetchJson ''https://api.github.com/commits/2222'',
       LogInfo ''We have a new base: %s'' [Str ''2222'']])"
  by (simp add: merge_world_def P1_def P2_def)

lemma query_data_merge_world:
  "query_data merge_world fenix_info ''abcd'' =
     (Inr (''2222'', [\<lparr>pc_message = ''fix'', pc_author = ''ann'', pc_committer = ''bob'',
                        pc_id = ''abcd''\<rparr>]),
      [FetchJson ''https://api.github.com/repos/mozilla-mobile/fenix/compare/master...abcd'',
       LogInfo ''We have a merge commit. We need to find the right eventBaseSha'' [],
       FetchJson ''https://api.github.com/commits/1111'',
       FetchJson ''https://api.github.com/commits/2222'',
       LogInfo ''We have a new base: %s'' [Str ''2222''],
       FetchJson ''https://api.github.com/repos/mozilla-mobile/fenix/compare/2222...abcd''])"
proof -
  have cmp: "fetch_comparison merge_world u =
      Inr \<lparr>commits = [\<lparr>c_sha = ''abcd'', c_message = ''fix'', c_author = ''ann'',
                                 c_committer = ''bob''\<rparr>],
                    merge_base_commit = Some \<lparr>mb_parents = [P1, P2]\<rparr>\<rparr>" for u
    by (simp add: merge_world_def)
  have urls: "compare_url fenix_info (m_branch fenix_info) ''abcd'' =
        ''https://api.github.com/repos/mozilla-mobile/fenix/compare/master...abcd''"
      "compare_url fenix_info ''2222'' ''abcd'' =
        ''https://api.github.com/repos/mozilla-mobile/fenix/compare/2222...abcd''"
    by (simp_all add: compare_url_def GITHUB_API_def fenix_info_def)
  show ?thesis
    by (simp add: query_data_def compareUrl_def cmp find_base_merge_world urls push_commit_of_def
        del: find_base.simps)
qed

lemma ingestGitPush_merge_world:
  "ingestGitPush merge_world project \<lparr>commit_sha = ''abcd''\<rparr> =
     (Inr (),
      [RepositoryFilter ''fenix'',
       FetchJson ''https://api.github.com/repos/mozilla-mobile/fenix/compare/master...abcd'',
       LogInfo ''We have a merge commit. We need to find the right eventBaseSha'' [],
       FetchJson ''https://api.github.com/commits/1111'',
       FetchJson ''https://api.github.com/commits/2222'',
       LogInfo ''We have a new base: %s'' [Str ''2222''],
       FetchJson ''https://api.github.com/repos/mozilla-mobile/fenix/compare/2222...abcd'',
       PushLoaderProcess fenix_push ''exchange/taskcluster-github/v1/push''
         ''https://firefox-ci-tc.services.mozilla.com''])"
proof -
  have pp: "push_process merge_world pl ex u = Inr ()" for pl ex u
    by (simp add: merge_world_def)
  show ?thesis
    by (simp add: ingestGitPush_def repo_meta_merge_world github_push_to_pulse_def
        query_data_merge_world pp)
       (simp add: fenix_info_def fenix_push_def)
qed

section \<open>Claims\<close>

text \<open>
  C10. \<open>get_guid_root\<close> is idempotent: applying it to its own result changes nothing. Its
  result is the part of the guid before the first underscore when the guid has one, and the
  guid itself otherwise.
\<close>

theorem get_guid_root_idempotent:
  "get_guid_root (get_guid_root guid) = get_guid_root guid \<and>
   get_guid_root guid =
     (if CHR ''_'' \<in> set guid then takeWhile (\<lambda>c. c \<noteq> CHR ''_'') guid else guid)"
proof
  show "get_guid_root (get_guid_root guid) = get_guid_root guid"
    using get_guid_root_no_underscore [of guid]
    by (simp add: get_guid_root_def [of "get_guid_root guid"])
next
  show "get_guid_root guid =
     (if CHR ''_'' \<in> set guid then takeWhile (\<lambda>c. c \<noteq> CHR ''_'') guid else guid)"
    by (simp add: get_guid_root_takeWhile [symmetric]) (simp add: get_guid_root_def)
qed

theorem get_guid_root_idempotent_witness:
  "get_guid_root (get_guid_root ''abc_1577836800_x'') = ''abc'' \<and>
   get_guid_root ''abc_1577836800_x'' = ''abc'' \<and> get_guid_root ''abc'' = ''abc''"
  using get_guid_root_idempotent [of "''abc_1577836800_x''"] get_guid_root_idempotent [of "''abc''"]
  by simp

text \<open>
  C8. The claim: building the inverse state-to-exchange mapping fails fast whenever two
  exchange names map to the same state, and never silently produces a lossy inverse.
  The module-level loop has no check: on a forward mapping with two exchanges for the state
  \<open>completed\<close> it ends normally, with a dict that has lost the first of them.
\<close>

theorem stateToExchange_duplicate_state_counterexample:
  "\<not> distinct (map snd [(''exchange/a'', ''completed''), (''exchange/b'', ''completed'')]) \<and>
   \<not> isl (stateToExchange [(''exchange/a'', ''completed''), (''exchange/b'', ''completed'')]) \<and>
   projr (stateToExchange [(''exchange/a'', ''completed''), (''exchange/b'', ''completed'')])
     ''completed'' = Some ''exchange/b''"
  by (simp add: stateToExchange_def)

text \<open>
  C8, amended. Building the inverse never fails. It maps a state to the exchange of the last
  entry of the forward mapping, in iteration order, that has this state, and to nothing when
  no entry has it. When the forward mapping is injective (no state occurs twice) this is its
  strict inverse.
\<close>

theorem stateToExchange_last_wins:
  "\<not> isl (stateToExchange items) \<and>
   projr (stateToExchange items) s = map_option fst (find (\<lambda>kv. snd kv = s) (rev items)) \<and>
   (distinct (map snd items) \<longrightarrow>
      (\<forall>e. projr (stateToExchange items) s = Some e \<longleftrightarrow> (e, s) \<in> set items))"
proof -
  obtain d' where d': "stateToExchange items = Inr d'"
    and "\<And>s. d' s = (case find (\<lambda>kv. snd kv = s) (rev items) of
                    None \<Rightarrow> Map.empty s | Some kv \<Rightarrow> Some (fst kv))"
    unfolding stateToExchange_def
    using stateToExchange_loop_lookup [of Map.empty items] by blast
  then have look:
    "projr (stateToExchange items) s = map_option fst (find (\<lambda>kv. snd kv = s) (rev items))"
    by (simp split: option.splits)
  have "projr (stateToExchange items) s = Some e \<longleftrightarrow> (e, s) \<in> set items"
    if dist: "distinct (map snd items)" for e
  proof -
    from dist have d: "distinct (map snd (rev items))"
      by (simp add: rev_map [symmetric])
    show ?thesis
      unfolding look using find_distinct_snd [OF d, of s] by force
  qed
  then show ?thesis
    using look d' by simp
qed

theorem stateToExchange_last_wins_witness:
  "distinct (map snd example_EXCHANGE_EVENT_MAP) \<and>
   \<not> isl (stateToExchange example_EXCHANGE_EVENT_MAP) \<and>
   projr (stateToExchange example_EXCHANGE_EVENT_MAP) ''failed'' =
     Some ''exchange/taskcluster-queue/v1/task-failed'' \<and>
   (''exchange/taskcluster-queue/v1/task-failed'', ''failed'') \<in> set example_EXCHANGE_EVENT_MAP"
proof -
  have d: "distinct (map snd example_EXCHANGE_EVENT_MAP)"
    by (simp add: example_EXCHANGE_EVENT_MAP_def)
  have m: "(''exchange/taskcluster-queue/v1/task-failed'', ''failed'') \<in> set example_EXCHANGE_EVENT_MAP"
    by (simp add: example_EXCHANGE_EVENT_MAP_def)
  show ?thesis
    using stateToExchange_last_wins [of example_EXCHANGE_EVENT_MAP "''failed''"] d m by blast
qed

text \<open>
  C2. The claim: \<open>process_job_with_threads\<close> releases the connection slot on every exit
  path, also when the job loader raises. The release is the last statement of the function
  and is not protected: when the loader raises, the exception leaves the function after the
  slot was acquired and before it is released.
\<close>

theorem process_job_with_threads_raise_keeps_slot:
  "process_job_with_threads failing_loader (job_of ''T'' 0, ''https://tc'') =
     (Inl (Raised ''database error''),
      [AcquireConnection,
       LogInfo (''Loading into DB:'' @ [CHR 0x09] @ ''%s'') [Str ''T''],
       ProcessJob (job_of ''T'' 0) ''https://tc''])"
  by (simp add: process_job_with_threads_def acquire_connection_def
      release_connection_def failing_loader_def job_of_def)

text \<open>
  C1. The claim: an exception of the handler on one run is caught and logged, the other runs
  are still classified, and no job of another run is loaded for the failing run.
  When the handler raises on the run visited first (the newest), \<open>taskRuns\<close> is still
  unbound at \<open>if taskRuns:\<close>; \<open>UnboundLocalError\<close> leaves \<open>handleTask\<close> and run 0 is never
  classified. When it raises on a later run, \<open>taskRuns\<close> still holds the jobs of the run
  before, and they are loaded a second time.
\<close>

theorem handleTask_raising_run:
  "handleTask (handler_failing_on 1) example_s2e (two_runs, ''https://tc'') =
     (Inl (UnboundLocalError ''taskRuns''),
      [HandleMessage
         (make_message ''exchange/taskcluster-queue/v1/task-completed'' two_runs ''https://tc''
            \<lparr>runId = 1, state = ''completed''\<rparr>) ''definition'',
       LogException (Raised ''malformed run'')]) \<and>
   handleTask (handler_failing_on 0) example_s2e (two_runs, ''https://tc'') =
     (Inr (),
      [HandleMessage
         (make_message ''exchange/taskcluster-queue/v1/task-completed'' two_runs ''https://tc''
            \<lparr>runId = 1, state = ''completed''\<rparr>) ''definition'',
       AcquireConnection,
       LogInfo (''Loading into DB:'' @ [CHR 0x09] @ ''%s'') [Str ''T''],
       ProcessJob (job_of ''T'' 1) ''https://tc'',
       ReleaseConnection,
       HandleMessage
         (make_message ''exchange/taskcluster-queue/v1/task-exception'' two_runs ''https://tc''
            \<lparr>runId = 0, state = ''exception''\<rparr>) ''definition'',
       LogException (Raised ''malformed run''),
       AcquireConnection,
       LogInfo (''Loading into DB:'' @ [CHR 0x09] @ ''%s'') [Str ''T''],
       ProcessJob (job_of ''T'' 1) ''https://tc'',
       ReleaseConnection])"
  by (simp add: handleTask_def two_runs_def example_s2e_simps handler_failing_on_def
      make_message_def routine_to_future_def process_job_with_threads_def acquire_connection_def
      release_connection_def job_of_def)

text \<open>
  C6. The claim: under the sole precondition that no invocation raises, \<open>handleTask\<close>
  invokes the handler once per run, newest first. The lookup \<open>stateToExchange[run["state"]]\<close>
  is made while the message is built, before the \<open>try\<close>: for a run whose state is not a key
  of the dict it raises \<open>KeyError\<close>, which leaves \<open>handleTask\<close>. Here the handler never
  raises, yet it is invoked for run 1 only: run 0 is never handed to it.
\<close>

theorem handleTask_unknown_state_counterexample:
  "\<not> isl (handleMessage quiet_handler
            (make_message ''exchange/taskcluster-queue/v1/task-completed'' unknown_state_run
               ''https://tc'' \<lparr>runId = 1, state = ''completed''\<rparr>) ''definition'') \<and>
   length (runs (status unknown_state_run)) = 2 \<and>
   handleTask quiet_handler example_s2e (unknown_state_run, ''https://tc'') =
     (Inl (KeyError ''unknown-state''),
      [HandleMessage
         (make_message ''exchange/taskcluster-queue/v1/task-completed'' unknown_state_run
            ''https://tc'' \<lparr>runId = 1, state = ''completed''\<rparr>) ''definition'']) \<and>
   length (invocations
             (snd (handleTask quiet_handler example_s2e (unknown_state_run, ''https://tc'')))) = 1"
  by (simp add: handleTask_def unknown_state_run_def example_s2e_simps example_s2e_unknown
      quiet_handler_def make_message_def)

text \<open>
  C6, amended. For a task whose runs all have a state that is a key of the state-to-exchange
  dict, and on which no call of the handler raises, \<open>handleTask\<close> returns normally and calls
  the handler once per run, the last run of the list first. The message of each call carries
  the exchange of that run's state, the task id, the whole list of runs, the run's \<open>runId\<close>
  and the root URL; the task definition goes with it.
\<close>

theorem handleTask_invocations_newest_first:
  assumes "\<forall>r \<in> set (runs (status t)). state r \<in> dom s2e"
    and "\<forall>r \<in> set (runs (status t)).
           \<not> isl (handleMessage env (make_message (the (s2e (state r))) t url r) (task t))"
  shows "fst (handleTask env s2e (t, url)) = Inr () \<and>
         invocations (snd (handleTask env s2e (t, url))) =
           map (\<lambda>r. (\<lparr>exchange = the (s2e (state r)),
                       payload = \<lparr>p_status = \<lparr>taskId = taskId (status t), runs = runs (status t)\<rparr>,
                                  p_runId = runId r\<rparr>,
                       root_url = url\<rparr>, task t))
               (rev (runs (status t)))"
proof -
  have "\<exists>ex. s2e (state r) = Some ex \<and>
              \<not> isl (handleMessage env (make_message ex t url r) (task t))"
    if "r \<in> set (runs (status t))" for r
  proof -
    from that assms(1) obtain ex where "s2e (state r) = Some ex" by blast
    with that assms(2) show ?thesis by force
  qed
  then have "\<forall>r \<in> set (rev (runs (status t))). \<exists>ex. s2e (state r) = Some ex \<and>
              \<not> isl (handleMessage env (make_message ex t url r) (task t))"
    by simp
  from handleTask_loop_invocations [OF this, of None]
  show ?thesis by (simp add: handleTask_def make_message_def)
qed

theorem handleTask_invocations_newest_first_witness:
  "fst (handleTask (handler_failing_on 2) example_s2e (two_runs, ''https://tc'')) = Inr () \<and>
   invocations (snd (handleTask (handler_failing_on 2) example_s2e (two_runs, ''https://tc''))) =
     [(\<lparr>exchange = ''exchange/taskcluster-queue/v1/task-completed'',
        payload = \<lparr>p_status = status two_runs, p_runId = 1\<rparr>,
        root_url = ''https://tc''\<rparr>, ''definition''),
      (\<lparr>exchange = ''exchange/taskcluster-queue/v1/task-exception'',
        payload = \<lparr>p_status = status two_runs, p_runId = 0\<rparr>,
        root_url = ''https://tc''\<rparr>, ''definition'')]"
proof -
  have h1: "\<forall>r \<in> set (runs (status two_runs)). state r \<in> dom example_s2e"
    by (simp add: two_runs_def example_s2e_simps domI)
  have h2: "\<forall>r \<in> set (runs (status two_runs)).
      \<not> isl (handleMessage (handler_failing_on 2)
               (make_message (the (example_s2e (state r))) two_runs ''https://tc'' r)
               (task two_runs))"
    by (simp add: two_runs_def handler_failing_on_def make_message_def)
  show ?thesis
    using handleTask_invocations_newest_first [OF h1 h2]
    by (simp add: two_runs_def example_s2e_simps)
qed

text \<open>
  C3. The claim: when the listing of the task group fails, \<open>processTasks\<close> logs the failure,
  takes the batch as empty and returns without an exception. The failure is caught and logged,
  but \<open>tasks\<close> was never bound, and the test \<open>if not tasks\<close> that was to return on an empty
  batch raises \<open>UnboundLocalError\<close>, which leaves \<open>processTasks\<close>.
\<close>

theorem processTasks_listing_error:
  "processTasks http_error example_s2e ''G'' ''https://tc'' =
     Some (Inl (UnboundLocalError ''tasks''),
           [ListTaskGroup ''https://tc'' ''G'' None, LogException (Raised ''HTTP 500'')])"
  by (simp add: processTasks_def fetchGroupTasks_def fetchGroupTasks_loop.simps http_error_def)

text \<open>
  C4. Awaiting a batch never raises, whatever the units do: every unit of the batch is awaited,
  in order, and its effects are in the trace; a unit that raised is followed by the log record
  of its exception, and the units after it are awaited all the same. So \<open>processTasks\<close>, once
  the task group is listed, returns normally after one unit of \<open>handleTask\<close> per task.
\<close>

theorem await_futures_isolates_failures:
  "fst (await_futures fs) = Inr () \<and>
   snd (await_futures fs) =
     concat (map (\<lambda>fut. snd fut @ (case fst fut of Inl e \<Rightarrow> [LogException e] | Inr u \<Rightarrow> []))
               fs) \<and>
   (\<forall>ts evs. fetchGroupTasks env g url = Some (Inr ts, evs) \<longrightarrow>
      processTasks env s2e g url =
        Some (Inr (),
              evs @ [LogInfo ''We have %s tasks to process'' [Num (length ts)]] @
              snd (await_futures
                     (map (\<lambda>t. routine_to_future (handleTask env s2e) (t, url)) ts))))"
proof -
  have "processTasks env s2e g url =
        Some (Inr (),
              evs @ [LogInfo ''We have %s tasks to process'' [Num (length ts)]] @
              snd (await_futures
                     (map (\<lambda>t. routine_to_future (handleTask env s2e) (t, url)) ts)))"
    if "fetchGroupTasks env g url = Some (Inr ts, evs)" for ts evs
  proof -
    let ?a = "await_futures (map (\<lambda>t. routine_to_future (handleTask env s2e) (t, url)) ts)"
    obtain evs2 where "?a = (Inr (), evs2)"
      using await_futures_result
              [of "map (\<lambda>t. routine_to_future (handleTask env s2e) (t, url)) ts"]
      by (cases ?a) auto
    with that show ?thesis
      by (cases "ts = []") (simp_all add: processTasks_def)
  qed
  then show ?thesis
    by (simp add: await_futures_result await_futures_events)
qed

theorem await_futures_isolates_failures_witness:
  "fetchGroupTasks three_tasks ''G'' ''https://tc'' =
     Some (Inr [one_run ''T1'', one_run ''T2'', one_run ''T3''],
           [ListTaskGroup ''https://tc'' ''G'' None]) \<and>
   processTasks three_tasks example_s2e ''G'' ''https://tc'' =
     Some (Inr (),
       [ListTaskGroup ''https://tc'' ''G'' None,
        LogInfo ''We have %s tasks to process'' [Num 3],
        HandleMessage
          (make_message ''exchange/taskcluster-queue/v1/task-completed'' (one_run ''T1'')
             ''https://tc'' \<lparr>runId = 0, state = ''completed''\<rparr>) ''definition'',
        HandleMessage
          (make_message ''exchange/taskcluster-queue/v1/task-completed'' (one_run ''T2'')
             ''https://tc'' \<lparr>runId = 0, state = ''completed''\<rparr>) ''definition'',
        LogException (Raised ''malformed task''),
        LogException (UnboundLocalError ''taskRuns''),
        HandleMessage
          (make_message ''exchange/taskcluster-queue/v1/task-completed'' (one_run ''T3'')
             ''https://tc'' \<lparr>runId = 0, state = ''completed''\<rparr>) ''definition''])"
proof -
  note f = fetchGroupTasks_three_tasks
  from await_futures_isolates_failures
         [of "[]" three_tasks "''G''" "''https://tc''" example_s2e] f
  have "processTasks three_tasks example_s2e ''G'' ''https://tc'' =
        Some (Inr (),
              [ListTaskGroup ''https://tc'' ''G'' None] @
              [LogInfo ''We have %s tasks to process''
                 [Num (length [one_run ''T1'', one_run ''T2'', one_run ''T3''])]] @
              snd (await_futures
                     (map (\<lambda>t. routine_to_future (handleTask three_tasks example_s2e)
                                 (t, ''https://tc''))
                        [one_run ''T1'', one_run ''T2'', one_run ''T3''])))"
    by blast
  with f show ?thesis
    by (simp add: routine_to_future_def handleTask_three_tasks)
qed

text \<open>
  C5. The claim: for every finite chain of pages linked by continuation tokens,
  \<open>fetchGroupTasks\<close> returns the concatenation of the pages' tasks and stops after the page
  without a token. A chain whose first page is linked to the second by the empty string is
  such a chain, but \<open>if continuationToken:\<close> takes the empty string for no token: the code
  repeats the first request forever and never returns.
\<close>

theorem fetchGroupTasks_empty_token_counterexample:
  "page_chain empty_token ''https://tc'' ''G'' None
     [\<lparr>tasks = [one_run ''T1''], continuationToken = Some ''''\<rparr>,
      \<lparr>tasks = [one_run ''T2''], continuationToken = None\<rparr>] \<and>
   fetchGroupTasks empty_token ''G'' ''https://tc'' = None"
  by (simp add: fetchGroupTasks_def empty_token_loops) (simp add: empty_token_def)

text \<open>
  C5, amended. For every finite chain of pages linked by non-empty continuation tokens and
  ending in a page without a token, \<open>fetchGroupTasks\<close> returns, and returns the concatenation
  of the pages' task lists in page order; it sends one request per page, the first without a
  token and each further one with the token of the page before, and none after the page
  without a token.
\<close>

theorem fetchGroupTasks_concatenates_pages:
  assumes "page_chain env url g None pages"
    and "\<forall>p \<in> set pages. continuationToken p \<noteq> Some []"
  shows "\<exists>evs. fetchGroupTasks env g url = Some (Inr (concat (map tasks pages)), evs) \<and>
           requests evs = None # map continuationToken (butlast pages)"
  using fetchGroupTasks_loop_chain [OF assms, of "[]" None "[]" "[]"]
  by (simp add: fetchGroupTasks_def)

theorem fetchGroupTasks_concatenates_pages_witness:
  "fst (the (fetchGroupTasks three_pages ''G'' ''https://tc'')) =
     Inr [one_run ''T1'', one_run ''T2'', one_run ''T3'', one_run ''T4''] \<and>
   requests (snd (the (fetchGroupTasks three_pages ''G'' ''https://tc''))) =
     [None, Some ''a'', Some ''b'']"
proof -
  let ?pages = "[\<lparr>tasks = [one_run ''T1''], continuationToken = Some ''a''\<rparr>,
                 \<lparr>tasks = [one_run ''T2'', one_run ''T3''], continuationToken = Some ''b''\<rparr>,
                 \<lparr>tasks = [one_run ''T4''], continuationToken = None\<rparr>]"
  have h1: "page_chain three_pages ''https://tc'' ''G'' None ?pages"
    by (simp add: three_pages_def)
  have h2: "\<forall>p \<in> set ?pages. continuationToken p \<noteq> Some []"
    by simp
  from fetchGroupTasks_concatenates_pages [OF h1 h2]
  show ?thesis by auto
qed



text \<open>
  C9. \<open>ingestGitPush\<close> does not depend on its \<open>project\<close> argument: for any two projects
  outcome and effects are the same. The only repository it looks up is \<open>fenix\<close>, and a push
  it hands to the push loader carries the owner, repository name, branch and URL of \<open>fenix\<close>
  and goes to the root URL of \<open>fenix\<close>.
\<close>

theorem ingestGitPush_ignores_project:
  "ingestGitPush penv project commit = ingestGitPush penv project' commit \<and>
   repository_queries (snd (ingestGitPush penv project commit)) = [''fenix''] \<and>
   (\<forall>pl ex u. PushLoaderProcess pl ex u \<in> set (snd (ingestGitPush penv project commit)) \<longrightarrow>
      (\<exists>r. fst (repo_meta penv ''fenix'') = Inr r \<and>
           organization pl = m_owner r \<and> repository pl = m_repo r \<and>
           event_base_repo_branch (details pl) = m_branch r \<and>
           event_head_repo_url (details pl) = m_url r @ ''.git'' \<and>
           event_head_sha (details pl) = commit_sha commit \<and>
           u = m_tc_root_url r))"
proof -
  obtain res where rm: "repo_meta penv ''fenix'' = (res, [RepositoryFilter ''fenix''])"
    using snd_repo_meta [of penv "''fenix''"] by (cases "repo_meta penv ''fenix''") simp
  show ?thesis
  proof (cases res)
    case (Inl e)
    with rm show ?thesis by (simp add: ingestGitPush_def)
  next
    case (Inr r)
    obtain res1 evs1 where g: "github_push_to_pulse penv r (commit_sha commit) = (res1, evs1)"
      by (cases "github_push_to_pulse penv r (commit_sha commit)")
    have gh: "\<forall>ev \<in> set evs1. github_event ev"
      using github_push_to_pulse_events [of penv r "commit_sha commit"] g by simp
    then have q: "repository_queries evs1 = []"
      by (rule repository_queries_github)
    have nl: "PushLoaderProcess pl ex u \<notin> set evs1" for pl ex u
      using gh by (rule github_event_not_loader)
    show ?thesis
    proof (cases res1)
      case (Inl e)
      with rm Inr g q nl show ?thesis
        by (simp add: ingestGitPush_def)
    next
      case p: (Inr p)
      from github_push_to_pulse_fields [of penv r "commit_sha commit" p] g p
      have f: "organization (pulse_payload p) = m_owner r \<and> repository (pulse_payload p) = m_repo r \<and>
     event_base_repo_branch (details (pulse_payload p)) = m_branch r \<and>
     event_head_repo_url (details (pulse_payload p)) = m_url r @ ''.git'' \<and>
     event_head_sha (details (pulse_payload p)) = commit_sha commit"
        by simp
      from rm Inr g p q nl f show ?thesis
        by (simp add: ingestGitPush_def repository_queries_append split: sum.splits)
    qed
  qed
qed

theorem ingestGitPush_ignores_project_witness:
  "ingestGitPush merge_world ''reference-browser'' \<lparr>commit_sha = ''abcd''\<rparr> =
     ingestGitPush merge_world ''fenix'' \<lparr>commit_sha = ''abcd''\<rparr> \<and>
   repository_queries (snd (ingestGitPush merge_world ''reference-browser'' \<lparr>commit_sha = ''abcd''\<rparr>)) =
     [''fenix''] \<and>
   PushLoaderProcess fenix_push ''exchange/taskcluster-github/v1/push''
       ''https://firefox-ci-tc.services.mozilla.com''
     \<in> set (snd (ingestGitPush merge_world ''reference-browser'' \<lparr>commit_sha = ''abcd''\<rparr>)) \<and>
   fst (repo_meta merge_world ''fenix'') = Inr fenix_info \<and>
   organization fenix_push = m_owner fenix_info \<and> repository fenix_push = m_repo fenix_info"
proof -
  have ev: "PushLoaderProcess fenix_push ''exchange/taskcluster-github/v1/push''
       ''https://firefox-ci-tc.services.mozilla.com''
     \<in> set (snd (ingestGitPush merge_world ''reference-browser'' \<lparr>commit_sha = ''abcd''\<rparr>))"
    by (simp add: ingestGitPush_merge_world)
  from ingestGitPush_ignores_project [of merge_world "''reference-browser''" "\<lparr>commit_sha = ''abcd''\<rparr>" "''fenix''"] ev
  show ?thesis
    by (auto simp: repo_meta_merge_world)
qed

end
